theory Spec2Isabelle
  imports Complex_Main
begin

section \<open>Python values\<close>

text \<open>
  The calculation engine of the shaft and gear application works on Python floats.
  They are carried here as mathematical reals: rounding, overflow and NaN are outside
  this development, and every statement below is about the formulas as written, in
  exact arithmetic. The one non-finite value the code produces on purpose,
  \<^verbatim>\<open>float('inf')\<close>, is a constructor of its own.
\<close>

datatype py_float = Finite real | PosInf

text \<open>
  What a call can do instead of returning a float: raise \<^verbatim>\<open>ZeroDivisionError\<close>
  (\<^verbatim>\<open>/\<close> with a zero divisor), raise \<^verbatim>\<open>ValueError\<close>
  (\<^verbatim>\<open>math.sqrt\<close> of a negative number), or leave the reals: Python's
  \<^verbatim>\<open>**\<close> with a negative base and a fractional exponent raises nothing and
  yields a complex number; the model stops there with \<open>ComplexValue\<close>.

  The last two constructors belong to the float range, which only the range-aware
  rendering of \<^verbatim>\<open>verify_shaft_diameter\<close> below looks at. Python raises
  \<^verbatim>\<open>OverflowError\<close> when the result of \<^verbatim>\<open>**\<close> lies beyond the
  largest float. A product, quotient, sum or difference beyond the largest float raises
  nothing: Python goes on with \<^verbatim>\<open>inf\<close>, and the model stops there with
  \<open>InfiniteValue\<close>, so that whatever Python does after that point is outside
  the model.
\<close>

datatype py_error =
  ZeroDivisionError | ValueError | ComplexValue | OverflowError | InfiniteValue

definition py_div :: "real \<Rightarrow> real \<Rightarrow> py_error + real" where
  "py_div x y = (if y = 0 then Inl ZeroDivisionError else Inr (x / y))"

definition py_sqrt :: "real \<Rightarrow> py_error + real" where
  "py_sqrt x = (if x < 0 then Inl ValueError else Inr (sqrt x))"

definition py_pow_third :: "real \<Rightarrow> py_error + real" where
  \<comment> \<open>\<^verbatim>\<open>x ** (1/3)\<close>; \<^verbatim>\<open>0.0 ** (1/3)\<close> is \<^verbatim>\<open>0.0\<close>, as \<open>0 powr a\<close> is \<open>0\<close>.\<close>
  "py_pow_third x = (if x < 0 then Inl ComplexValue else Inr (x powr (1 / 3)))"

definition radians :: "real \<Rightarrow> real" where
  "radians x = x * pi / 180"

section \<open>Material database (material\_database.py)\<close>

record material_props =
  yield_strength :: real
  ultimate_strength :: real
  elastic_modulus :: real
  poisson_ratio :: real
  density :: real
  fatigue_strength :: real
  hardness_hb :: real
  category :: string

definition AISI_1045_Steel :: material_props where
  "AISI_1045_Steel = \<lparr>
     yield_strength = 310000000,
     ultimate_strength = 565000000,
     elastic_modulus = 200000000000,
     poisson_ratio = 29 / 100,
     density = 7850,
     fatigue_strength = 282000000,
     hardness_hb = 163,
     category = ''Carbon Steel'' \<rparr>"

section \<open>Utilities (utils.py)\<close>

definition calculate_safety_factor :: "real \<Rightarrow> real \<Rightarrow> py_error + py_float" where
  "calculate_safety_factor applied_stress material_strength =
     (if applied_stress \<le> 0 then Inr PosInf
      else (case py_div material_strength applied_stress of
              Inl e \<Rightarrow> Inl e
            | Inr s \<Rightarrow> Inr (Finite s)))"

section \<open>Shaft engine (shaft\_calculations.py)\<close>

text \<open>
  The bending stress the hollow-shaft search computes for a candidate outer diameter:
  the three assignments at the head of the loop body. The two divisions raise on a zero
  divisor.
\<close>

definition hollow_stress :: "real \<Rightarrow> real \<Rightarrow> real \<Rightarrow> py_error + real" where
  "hollow_stress equivalent_moment inner_diameter diameter =
     (let J = (pi / 32) * (diameter ^ 4 - inner_diameter ^ 4) in
      case py_div J (diameter / 2) of
        Inl e \<Rightarrow> Inl e
      | Inr section_modulus \<Rightarrow> py_div equivalent_moment section_modulus)"

text \<open>
  \<^verbatim>\<open>for _ in range(100)\<close>: the first argument is the number of iterations left.
  The loop returns the diameter it ends with, together with the candidates whose stress
  it has evaluated, oldest first (Python keeps only the diameter; the trace is there to
  state which diameters were tried).
\<close>

fun hollow_loop ::
  "nat \<Rightarrow> real \<Rightarrow> real \<Rightarrow> real \<Rightarrow> real \<Rightarrow> real list \<Rightarrow> py_error + real \<times> real list" where
  "hollow_loop 0 equivalent_moment allowable_stress inner_diameter diameter tried =
     Inr (diameter, tried)"
| "hollow_loop (Suc n) equivalent_moment allowable_stress inner_diameter diameter tried =
     (case hollow_stress equivalent_moment inner_diameter diameter of
        Inl e \<Rightarrow> Inl e
      | Inr stress \<Rightarrow>
          if stress \<le> allowable_stress then Inr (diameter, tried @ [diameter])
          else hollow_loop n equivalent_moment allowable_stress inner_diameter
                 (diameter + 1 / 10) (tried @ [diameter]))"

definition hollow_search :: "real \<Rightarrow> real \<Rightarrow> real \<Rightarrow> py_error + real \<times> real list" where
  "hollow_search equivalent_moment allowable_stress inner_diameter =
     hollow_loop 100 equivalent_moment allowable_stress inner_diameter
       (inner_diameter + 10) []"

definition calculate_required_diameter ::
  "real \<Rightarrow> real \<Rightarrow> real \<Rightarrow> material_props \<Rightarrow> real \<Rightarrow> real \<Rightarrow> py_error + real" where
  "calculate_required_diameter torque bending_moment axial_force props safety_factor
       inner_diameter =
     (case py_div (yield_strength props) safety_factor of
        Inl e \<Rightarrow> Inl e
      | Inr allowable_stress \<Rightarrow>
     (case py_sqrt (bending_moment ^ 2 + (0.75 * torque) ^ 2) of
        Inl e \<Rightarrow> Inl e
      | Inr equivalent_moment \<Rightarrow>
          if inner_diameter = 0 then
            (case py_div (32 * equivalent_moment) (pi * allowable_stress) of
               Inl e \<Rightarrow> Inl e
             | Inr q \<Rightarrow>
                 (case py_pow_third q of
                    Inl e \<Rightarrow> Inl e
                  | Inr diameter \<Rightarrow> Inr (diameter * 1000)))
          else
            (case hollow_search equivalent_moment allowable_stress inner_diameter of
               Inl e \<Rightarrow> Inl e
             | Inr (diameter, tried) \<Rightarrow> Inr (diameter * 1000))))"

text \<open>
  The section properties \<open>(area, I, J)\<close> of \<^verbatim>\<open>verify_shaft_diameter\<close>, from
  the diameters in metres.
\<close>

definition section_properties :: "real \<Rightarrow> real \<Rightarrow> real \<times> real \<times> real" where
  "section_properties outer_diameter inner_diameter =
     (if inner_diameter = 0 then
        (pi * (outer_diameter / 2) ^ 2,
         pi * outer_diameter ^ 4 / 64,
         pi * outer_diameter ^ 4 / 32)
      else
        (pi * ((outer_diameter / 2) ^ 2 - (inner_diameter / 2) ^ 2),
         pi * (outer_diameter ^ 4 - inner_diameter ^ 4) / 64,
         pi * (outer_diameter ^ 4 - inner_diameter ^ 4) / 32))"

text \<open>
  The von Mises equivalent stress of \<^verbatim>\<open>verify_shaft_diameter\<close>: everything the
  function computes before its last assignment. The diameters arrive in millimetres.
\<close>

definition equivalent_stress :: "real \<Rightarrow> real \<Rightarrow> real \<Rightarrow> real \<Rightarrow> real \<Rightarrow> py_error + real" where
  "equivalent_stress outer_diameter_mm inner_diameter_mm torque bending_moment axial_force =
     (let outer_diameter = outer_diameter_mm / 1000;
          inner_diameter = inner_diameter_mm / 1000;
          (area, I, J) = section_properties outer_diameter inner_diameter
      in
      case (if area > 0 then py_div axial_force area else Inr 0) of
        Inl e \<Rightarrow> Inl e
      | Inr axial_stress \<Rightarrow>
      (case (if I > 0 then py_div (bending_moment * (outer_diameter / 2)) I else Inr 0) of
        Inl e \<Rightarrow> Inl e
      | Inr bending_stress \<Rightarrow>
      (case (if J > 0 then py_div (torque * (outer_diameter / 2)) J else Inr 0) of
        Inl e \<Rightarrow> Inl e
      | Inr shear_stress \<Rightarrow>
          py_sqrt ((axial_stress + bending_stress) ^ 2 + 3 * shear_stress ^ 2))))"

definition verify_shaft_diameter ::
  "real \<Rightarrow> real \<Rightarrow> real \<Rightarrow> real \<Rightarrow> real \<Rightarrow> material_props \<Rightarrow> py_error + py_float" where
  "verify_shaft_diameter outer_diameter inner_diameter torque bending_moment axial_force
       props =
     (case equivalent_stress outer_diameter inner_diameter torque bending_moment
             axial_force of
        Inl e \<Rightarrow> Inl e
      | Inr sigma \<Rightarrow>
          if sigma > 0 then
            (case py_div (yield_strength props) sigma of
               Inl e \<Rightarrow> Inl e
             | Inr s \<Rightarrow> Inr (Finite s))
          else Inr PosInf)"

subsection \<open>The verifier with the float range\<close>

text \<open>
  The largest finite double, \<open>(2 - 2^-52) * 2^1023\<close>. Rounding stays outside the
  model: a result counts as representable when its exact value is within the range.
\<close>

definition float_max :: real where
  "float_max = (2 ^ 53 - 1) * 2 ^ 971"

definition in_float_range :: "real \<Rightarrow> bool" where
  "in_float_range r \<longleftrightarrow> \<bar>r\<bar> \<le> float_max"

definition fl_pow :: "real \<Rightarrow> nat \<Rightarrow> py_error + real" where
  \<comment> \<open>\<^verbatim>\<open>x ** n\<close>\<close>
  "fl_pow x n = (if in_float_range (x ^ n) then Inr (x ^ n) else Inl OverflowError)"

definition fl_result :: "real \<Rightarrow> py_error + real" where
  \<comment> \<open>the result of \<^verbatim>\<open>*\<close>, \<^verbatim>\<open>/\<close>, \<^verbatim>\<open>+\<close> or \<^verbatim>\<open>-\<close>\<close>
  "fl_result r = (if in_float_range r then Inr r else Inl InfiniteValue)"

definition fl_div :: "real \<Rightarrow> real \<Rightarrow> py_error + real" where
  "fl_div x y = (if y = 0 then Inl ZeroDivisionError else fl_result (x / y))"

definition and_then :: "py_error + 'a \<Rightarrow> ('a \<Rightarrow> py_error + 'b) \<Rightarrow> py_error + 'b" where
  \<comment> \<open>one statement after another: an exception ends the call\<close>
  "and_then m f = (case m of Inl e \<Rightarrow> Inl e | Inr v \<Rightarrow> f v)"

text \<open>
  \<^verbatim>\<open>verify_shaft_diameter\<close> once more, operation by operation in Python's order
  of evaluation, every \<^verbatim>\<open>**\<close> and every arithmetic result checked against the
  float range. Divisions by the constants 1000, 2, 64 and 32 only shrink a value and are
  left unchecked; \<^verbatim>\<open>outer_diameter**4\<close>, which Python computes for \<open>I\<close> and
  again for \<open>J\<close>, is computed once.
\<close>

definition section_properties_float :: "real \<Rightarrow> real \<Rightarrow> py_error + real \<times> real \<times> real" where
  "section_properties_float outer_diameter inner_diameter =
     (if inner_diameter = 0 then
        and_then (fl_pow (outer_diameter / 2) 2) (\<lambda>ro2.
        and_then (fl_result (pi * ro2)) (\<lambda>area.
        and_then (fl_pow outer_diameter 4) (\<lambda>do4.
        and_then (fl_result (pi * do4)) (\<lambda>p.
        Inr (area, p / 64, p / 32)))))
      else
        and_then (fl_pow (outer_diameter / 2) 2) (\<lambda>ro2.
        and_then (fl_pow (inner_diameter / 2) 2) (\<lambda>ri2.
        and_then (fl_result (ro2 - ri2)) (\<lambda>a.
        and_then (fl_result (pi * a)) (\<lambda>area.
        and_then (fl_pow outer_diameter 4) (\<lambda>do4.
        and_then (fl_pow inner_diameter 4) (\<lambda>di4.
        and_then (fl_result (do4 - di4)) (\<lambda>d.
        and_then (fl_result (pi * d)) (\<lambda>p.
        Inr (area, p / 64, p / 32))))))))))"

definition equivalent_stress_float ::
  "real \<Rightarrow> real \<Rightarrow> real \<Rightarrow> real \<Rightarrow> real \<Rightarrow> py_error + real" where
  "equivalent_stress_float outer_diameter_mm inner_diameter_mm torque bending_moment
       axial_force =
     (let outer_diameter = outer_diameter_mm / 1000;
          inner_diameter = inner_diameter_mm / 1000
      in
      and_then (section_properties_float outer_diameter inner_diameter) (\<lambda>(area, I, J).
      and_then (if area > 0 then fl_div axial_force area else Inr 0) (\<lambda>axial_stress.
      and_then (if I > 0 then
                  and_then (fl_result (bending_moment * (outer_diameter / 2)))
                    (\<lambda>n. fl_div n I)
                else Inr 0) (\<lambda>bending_stress.
      and_then (if J > 0 then
                  and_then (fl_result (torque * (outer_diameter / 2)))
                    (\<lambda>n. fl_div n J)
                else Inr 0) (\<lambda>shear_stress.
      and_then (fl_result (axial_stress + bending_stress)) (\<lambda>normal_stress.
      and_then (fl_pow normal_stress 2) (\<lambda>n2.
      and_then (fl_pow shear_stress 2) (\<lambda>s2.
      and_then (fl_result (3 * s2)) (\<lambda>s3.
      and_then (fl_result (n2 + s3)) (\<lambda>radicand.
      py_sqrt radicand))))))))))"

definition verify_shaft_diameter_float ::
  "real \<Rightarrow> real \<Rightarrow> real \<Rightarrow> real \<Rightarrow> real \<Rightarrow> material_props \<Rightarrow> py_error + py_float" where
  "verify_shaft_diameter_float outer_diameter inner_diameter torque bending_moment
       axial_force props =
     and_then
       (equivalent_stress_float outer_diameter inner_diameter torque bending_moment
          axial_force)
       (\<lambda>sigma.
          if sigma > 0 then
            and_then (fl_div (yield_strength props) sigma) (\<lambda>s. Inr (Finite s))
          else Inr PosInf)"

text \<open>
  What the range-aware verifier can end in: \<open>within_range P m\<close> holds when \<open>m\<close>
  stops at the float range, by an \<^verbatim>\<open>OverflowError\<close> or at an infinite value,
  or returns a value that satisfies \<open>P\<close>. No other exception is left.
\<close>

definition within_range :: "('a \<Rightarrow> bool) \<Rightarrow> py_error + 'a \<Rightarrow> bool" where
  "within_range P m =
     (case m of Inl e \<Rightarrow> e = OverflowError \<or> e = InfiniteValue | Inr v \<Rightarrow> P v)"

section \<open>Gear engine (gear\_calculations.py)\<close>

text \<open>The Lewis form factor table, in the order of the dictionary literal.\<close>

definition lewis_factors :: "(int \<times> real) list" where
  "lewis_factors =
     [(12, 0.245), (13, 0.261), (14, 0.277), (15, 0.290), (16, 0.296),
      (17, 0.303), (18, 0.309), (19, 0.314), (20, 0.322), (22, 0.331),
      (24, 0.337), (26, 0.346), (28, 0.353), (30, 0.359), (34, 0.371),
      (38, 0.384), (43, 0.397), (50, 0.409), (60, 0.422), (75, 0.435),
      (100, 0.447), (150, 0.460), (300, 0.472)]"

text \<open>
  The interpolation loop over consecutive entries of the sorted key list. \<open>None\<close> is
  Python's \<^verbatim>\<open>None\<close>, returned when the loop ends without a bracket (and stands for
  the \<^verbatim>\<open>KeyError\<close> of a key missing from the table, which cannot happen for keys
  taken from the table itself). The divisor \<open>t2 - t1\<close> is the distance of two distinct
  keys.
\<close>

fun interpolate :: "int list \<Rightarrow> int \<Rightarrow> real option" where
  "interpolate (t1 # t2 # rest) teeth =
     (if t1 \<le> teeth \<and> teeth \<le> t2 then
        (case (map_of lewis_factors t1, map_of lewis_factors t2) of
           (Some y1, Some y2) \<Rightarrow>
             Some (y1 + (y2 - y1) * real_of_int (teeth - t1) / real_of_int (t2 - t1))
         | _ \<Rightarrow> None)
      else interpolate (t2 # rest) teeth)"
| "interpolate _ teeth = None"

definition teeth_list :: "int list" where
  "teeth_list = sort (map fst lewis_factors)"

definition get_lewis_factor :: "int \<Rightarrow> real option" where
  "get_lewis_factor teeth =
     (case map_of lewis_factors teeth of
        Some y \<Rightarrow> Some y
      | None \<Rightarrow>
          if teeth < Min (set teeth_list) then map_of lewis_factors (Min (set teeth_list))
          else if teeth > Max (set teeth_list) then
            map_of lewis_factors (Max (set teeth_list))
          else interpolate teeth_list teeth)"

text \<open>The table read at one of its keys, \<^verbatim>\<open>lewis_factors[k]\<close>.\<close>

definition lewis_value :: "int \<Rightarrow> real" where
  "lewis_value k = the (map_of lewis_factors k)"

text \<open>
  The dynamic factor, written out once in the bending analysis and once in the contact
  analysis, each with its three branches.
\<close>

definition Kv_bending :: "real \<Rightarrow> py_error + real" where
  "Kv_bending v =
     (if v \<le> 5 then Inr 1
      else if v \<le> 10 then
        (case py_sqrt v of Inl e \<Rightarrow> Inl e | Inr r \<Rightarrow> Inr ((5.56 + r) / 5.56))
      else
        (case py_sqrt v of Inl e \<Rightarrow> Inl e | Inr r \<Rightarrow> Inr ((5.56 + r) / 5.56)))"

definition Kv_contact :: "real \<Rightarrow> py_error + real" where
  "Kv_contact v =
     (if v \<le> 5 then Inr 1
      else if v \<le> 10 then
        (case py_sqrt v of Inl e \<Rightarrow> Inl e | Inr r \<Rightarrow> Inr ((5.56 + r) / 5.56))
      else
        (case py_sqrt v of Inl e \<Rightarrow> Inl e | Inr r \<Rightarrow> Inr ((5.56 + r) / 5.56)))"

text \<open>\<^verbatim>\<open>gear_ratio = gear_teeth / pinion_teeth\<close> of the basic design page.\<close>

definition gear_ratio :: "int \<Rightarrow> int \<Rightarrow> py_error + real" where
  "gear_ratio gear_teeth pinion_teeth =
     py_div (real_of_int gear_teeth) (real_of_int pinion_teeth)"

text \<open>
  The geometry factor of the contact analysis before its guard, and the value
  the contact stress formula divides by.
\<close>

definition raw_geometry_factor :: "real \<Rightarrow> real \<Rightarrow> py_error + real" where
  "raw_geometry_factor helix_angle ratio =
     (case py_div ratio (ratio + 1) of
        Inl e \<Rightarrow> Inl e
      | Inr r \<Rightarrow> Inr ((cos (radians helix_angle) * sin (radians 20)) / 2 * r))"

definition geometry_factor :: "real \<Rightarrow> real \<Rightarrow> py_error + real" where
  "geometry_factor helix_angle ratio =
     (case raw_geometry_factor helix_angle ratio of
        Inl e \<Rightarrow> Inl e
      | Inr I \<Rightarrow> if I \<le> 0 then Inr 0.1 else Inr I)"


section \<open>Verifying a diameter\<close>

lemma py_sqrt_von_mises:
  "py_sqrt ((a + b)\<^sup>2 + 3 * c\<^sup>2) = Inr (sqrt ((a + b)\<^sup>2 + 3 * c\<^sup>2))"
  by (simp add: py_sqrt_def not_less add_nonneg_nonneg)

lemma guarded_div: "(if 0 < d then py_div x d else Inr 0) = Inr (if 0 < d then x / d else 0)"
  by (simp add: py_div_def)

text \<open>With every guard in place, the stress computation is a plain formula.\<close>

lemma equivalent_stress_eq:
  "equivalent_stress od idm T M F =
     (case section_properties (od / 1000) (idm / 1000) of (area, I, J) \<Rightarrow>
        Inr (sqrt (((if 0 < area then F / area else 0) +
                    (if 0 < I then M * (od / 1000 / 2) / I else 0))\<^sup>2 +
                   3 * (if 0 < J then T * (od / 1000 / 2) / J else 0)\<^sup>2)))"
  unfolding equivalent_stress_def Let_def guarded_div
  by (simp add: py_sqrt_von_mises split: prod.splits)

lemma equivalent_stress_total: "\<exists>\<sigma>\<ge>0. equivalent_stress od idm T M F = Inr \<sigma>"
  unfolding equivalent_stress_eq by (simp split: prod.splits)

lemma equivalent_stress_zero_loads: "equivalent_stress od idm 0 0 0 = Inr 0"
  unfolding equivalent_stress_eq by (simp split: prod.splits)

text \<open>
  C9. When the von Mises equivalent stress is exactly zero, \<open>verify_shaft_diameter\<close>
  returns the sentinel \<open>PosInf\<close> and raises nothing, whatever the material; this is
  the case in particular when torque, bending moment and axial force are all zero.
  \<open>calculate_safety_factor\<close> returns the sentinel for an applied stress of zero.
\<close>

theorem zero_stress_gives_infinity:
  "(equivalent_stress od idm T M F = Inr 0 \<longrightarrow>
      verify_shaft_diameter od idm T M F props = Inr PosInf) \<and>
   verify_shaft_diameter od idm 0 0 0 props = Inr PosInf \<and>
   calculate_safety_factor 0 strength = Inr PosInf"
  by (simp add: verify_shaft_diameter_def equivalent_stress_zero_loads
        calculate_safety_factor_def)

theorem zero_stress_gives_infinity_witness:
  "equivalent_stress 50 0 0 0 0 = Inr 0 \<and>
   verify_shaft_diameter 50 0 0 0 0 AISI_1045_Steel = Inr PosInf"
  using zero_stress_gives_infinity [of 50 0 0 0 0 AISI_1045_Steel]
    equivalent_stress_zero_loads [of 50 0]
  by simp

text \<open>
  In exact arithmetic the verifier is total: for a material of positive yield strength
  it returns the sentinel or a positive safety factor, whatever the diameters and the
  loads, since each of the divisions by the area, by \<open>I\<close>, by \<open>J\<close> and by the
  equivalent stress is taken only behind its guard.
\<close>

lemma verify_shaft_diameter_exact_total:
  assumes "0 < yield_strength props"
  shows "verify_shaft_diameter od idm T M F props = Inr PosInf \<or>
         (\<exists>s>0. verify_shaft_diameter od idm T M F props = Inr (Finite s))"
proof -
  obtain \<sigma> where s: "0 \<le> \<sigma>" "equivalent_stress od idm T M F = Inr \<sigma>"
    using equivalent_stress_total by blast
  show ?thesis
  proof (cases "\<sigma> > 0")
    case True
    then have "verify_shaft_diameter od idm T M F props =
        Inr (Finite (yield_strength props / \<sigma>))"
      using s by (simp add: verify_shaft_diameter_def py_div_def)
    moreover have "0 < yield_strength props / \<sigma>"
      using True assms by simp
    ultimately show ?thesis by blast
  next
    case False
    then show ?thesis
      using s by (simp add: verify_shaft_diameter_def)
  qed
qed

section \<open>The verifier and the float range\<close>

subsection \<open>One operation after another\<close>

lemma wr_and_then:
  assumes "within_range Q m" "\<And>v. Q v \<Longrightarrow> within_range P (f v)"
  shows "within_range P (and_then m f)"
  using assms by (cases m) (simp_all add: within_range_def and_then_def)

lemma wr_fl_pow: "within_range (\<lambda>v. v = x ^ n) (fl_pow x n)"
  by (simp add: within_range_def fl_pow_def)

lemma wr_fl_result: "within_range (\<lambda>v. v = r) (fl_result r)"
  by (simp add: within_range_def fl_result_def)

lemma wr_fl_div: "y \<noteq> 0 \<Longrightarrow> within_range (\<lambda>v. v = x / y) (fl_div x y)"
  by (simp add: within_range_def fl_div_def fl_result_def)

lemma wr_Inr: "P v \<Longrightarrow> within_range P (Inr v)"
  by (simp add: within_range_def)

lemma wr_weaken:
  "within_range P m \<Longrightarrow> (\<And>v. P v \<Longrightarrow> Q v) \<Longrightarrow> within_range Q m"
  by (cases m) (simp_all add: within_range_def)

lemma wr_guarded_div:
  "within_range (\<lambda>v. v = (if 0 < d then x / d else 0))
     (if d > 0 then fl_div x d else Inr 0)"
  by (simp add: within_range_def fl_div_def fl_result_def)

lemma wr_guarded_mul_div:
  "within_range (\<lambda>v. v = (if 0 < d then a * b / d else 0))
     (if d > 0 then and_then (fl_result (a * b)) (\<lambda>n. fl_div n d) else Inr 0)"
  by (simp add: within_range_def and_then_def fl_div_def fl_result_def)

text \<open>
  Where the range-aware verifier returns, it returns what the exact one returns; where it
  does not, it has stopped at the float range.
\<close>

lemma wr_section:
  "within_range (\<lambda>r. r = section_properties od idm) (section_properties_float od idm)"
proof (cases "idm = 0")
  case True
  show ?thesis
    unfolding section_properties_float_def section_properties_def if_P [OF True]
    by (rule wr_and_then [OF wr_fl_pow] wr_and_then [OF wr_fl_result] wr_Inr)+ simp
next
  case False
  show ?thesis
    unfolding section_properties_float_def section_properties_def if_not_P [OF False]
    by (rule wr_and_then [OF wr_fl_pow] wr_and_then [OF wr_fl_result] wr_Inr)+ simp
qed

lemma wr_equivalent_stress:
  "within_range (\<lambda>\<sigma>. equivalent_stress od idm T M F = Inr \<sigma>)
     (equivalent_stress_float od idm T M F)"
proof -
  obtain area I J where sp: "section_properties (od / 1000) (idm / 1000) = (area, I, J)"
    by (cases "section_properties (od / 1000) (idm / 1000)") auto
  have "within_range
      (\<lambda>\<sigma>. \<sigma> = sqrt (((if 0 < area then F / area else 0) +
                      (if 0 < I then M * (od / 1000 / 2) / I else 0))\<^sup>2 +
                     3 * (if 0 < J then T * (od / 1000 / 2) / J else 0)\<^sup>2))
      (equivalent_stress_float od idm T M F)"
    unfolding equivalent_stress_float_def Let_def
    apply (rule wr_and_then [OF wr_section])
    apply (simp only: sp prod.case)
    apply (rule wr_and_then [OF wr_guarded_div])
    apply (rule wr_and_then [OF wr_guarded_mul_div])
    apply (rule wr_and_then [OF wr_guarded_mul_div])
    apply (rule wr_and_then [OF wr_fl_result])
    apply (rule wr_and_then [OF wr_fl_pow])
    apply (rule wr_and_then [OF wr_fl_pow])
    apply (rule wr_and_then [OF wr_fl_result])
    apply (rule wr_and_then [OF wr_fl_result])
    apply (simp add: within_range_def py_sqrt_def not_less add_nonneg_nonneg)
    done
  then show ?thesis
    unfolding equivalent_stress_eq sp by (rule wr_weaken) simp
qed

lemma wr_verify:
  "within_range (\<lambda>r. verify_shaft_diameter od idm T M F props = Inr r)
     (verify_shaft_diameter_float od idm T M F props)"
  unfolding verify_shaft_diameter_float_def
proof (rule wr_and_then [OF wr_equivalent_stress])
  fix \<sigma>
  assume es: "equivalent_stress od idm T M F = Inr \<sigma>"
  show "within_range (\<lambda>r. verify_shaft_diameter od idm T M F props = Inr r)
     (if \<sigma> > 0 then and_then (fl_div (yield_strength props) \<sigma>) (\<lambda>s. Inr (Finite s))
      else Inr PosInf)"
    by (simp add: within_range_def and_then_def fl_div_def fl_result_def
        verify_shaft_diameter_def es py_div_def)
qed

text \<open>
  C10, as the code has it. \<open>verify_shaft_diameter\<close> is total within the float
  range only. For a material of positive yield strength, as long as every intermediate
  result stays within the range, the call returns the sentinel or a positive safety
  factor and raises nothing: every division is guarded, and the square root is never
  taken of a negative number. At the edge of the range the call can end in one
  exception, the \<^verbatim>\<open>OverflowError\<close> of a \<^verbatim>\<open>**\<close> whose result lies
  beyond the largest float.
\<close>

theorem verify_shaft_diameter_float_outcomes:
  assumes "0 < yield_strength props"
  shows "verify_shaft_diameter_float od idm T M F props = Inl OverflowError \<or>
         verify_shaft_diameter_float od idm T M F props = Inl InfiniteValue \<or>
         verify_shaft_diameter_float od idm T M F props = Inr PosInf \<or>
         (\<exists>s>0. verify_shaft_diameter_float od idm T M F props = Inr (Finite s))"
proof (cases "verify_shaft_diameter_float od idm T M F props")
  case (Inl e)
  then show ?thesis
    using wr_verify [of od idm T M F props] by (auto simp: within_range_def)
next
  case (Inr r)
  then have "verify_shaft_diameter od idm T M F props = Inr r"
    using wr_verify [of od idm T M F props] by (simp add: within_range_def)
  then show ?thesis
    using Inr verify_shaft_diameter_exact_total [OF assms, of od idm T M F] by auto
qed

subsection \<open>A solid shaft of 50 mm\<close>

lemma float_max_bounds: "10 ^ 300 \<le> float_max" "float_max < 10 ^ 309"
  by (simp_all add: float_max_def)

lemma in_float_range_small: "\<bar>r\<bar> \<le> 10 ^ 20 \<Longrightarrow> in_float_range r"
proof -
  assume "\<bar>r\<bar> \<le> 10 ^ 20"
  moreover have "(10::real) ^ 20 \<le> 10 ^ 300"
    by (rule power_increasing) simp_all
  ultimately show ?thesis
    unfolding in_float_range_def using float_max_bounds(1) by linarith
qed

lemma in_float_range_torque:
  fixes c :: real
  assumes "0 \<le> c" "c \<le> 10 ^ 6"
  shows "in_float_range (10 ^ 200 * c)"
proof -
  have "c \<le> 10 ^ 100"
  proof -
    have "(10::real) ^ 6 \<le> 10 ^ 100"
      by (rule power_increasing) simp_all
    then show ?thesis using assms(2) by linarith
  qed
  then have "(10::real) ^ 200 * c \<le> 10 ^ 200 * 10 ^ 100"
    using assms by (intro mult_left_mono) auto
  also have "\<dots> = 10 ^ (200 + 100)"
    by (rule power_add [symmetric])
  also have "\<dots> = 10 ^ 300"
    by (simp only: numeral_plus_numeral semiring_norm)
  finally have "10 ^ 200 * c \<le> 10 ^ 300" .
  moreover have "0 \<le> 10 ^ 200 * c"
    using assms by (intro mult_nonneg_nonneg) auto
  ultimately show ?thesis
    unfolding in_float_range_def using float_max_bounds(1) by linarith
qed

lemma not_in_float_range_torque_sq:
  fixes c :: real
  assumes "1 \<le> c"
  shows "\<not> in_float_range ((10 ^ 200 * c)\<^sup>2)"
proof -
  have "(10::real) ^ 309 \<le> 10 ^ (200 + 200)"
    by (rule power_increasing) simp_all
  also have "\<dots> = 10 ^ 200 * 10 ^ 200"
    by (rule power_add)
  also have "\<dots> \<le> (10 ^ 200 * c) * (10 ^ 200 * c)"
    using assms by (intro mult_mono) auto
  finally have "10 ^ 309 \<le> (10 ^ 200 * c)\<^sup>2"
    by (simp only: power2_eq_square)
  then have "float_max < \<bar>(10 ^ 200 * c)\<^sup>2\<bar>"
    using float_max_bounds(2) by linarith
  then show ?thesis
    by (simp only: in_float_range_def not_le)
qed

lemma fl_result_small: "\<bar>r\<bar> \<le> 10 ^ 20 \<Longrightarrow> fl_result r = Inr r"
  by (simp add: fl_result_def in_float_range_small)

lemma fl_pow_small: "\<bar>x ^ n\<bar> \<le> 10 ^ 20 \<Longrightarrow> fl_pow x n = Inr (x ^ n)"
  by (simp add: fl_pow_def in_float_range_small)

lemma fl_div_small: "y \<noteq> 0 \<Longrightarrow> \<bar>x / y\<bar> \<le> 10 ^ 20 \<Longrightarrow> fl_div x y = Inr (x / y)"
  by (simp add: fl_div_def fl_result_small)

lemma pi_times_small: "0 \<le> c \<Longrightarrow> c \<le> 1 \<Longrightarrow> \<bar>pi * c\<bar> \<le> 10 ^ 20" for c :: real
proof -
  assume c: "0 \<le> c" "c \<le> 1"
  have "pi * c \<le> 4 * 1"
    using pi_less_4 c by (intro mult_mono) auto
  then show ?thesis
    using c by simp
qed

lemma over_pi_le: "0 \<le> c \<Longrightarrow> 0 \<le> c / pi \<and> c / pi \<le> c" for c :: real
proof -
  assume c: "0 \<le> c"
  have "c / pi \<le> c / 1"
    using c pi_ge_two by (intro divide_left_mono) auto
  then show ?thesis
    using c by simp
qed

lemma sp50: "section_properties_float (50 / 1000) (0 / 1000) =
    Inr (pi * (1 / 1600), pi * (1 / 160000) / 64, pi * (1 / 160000) / 32)"
proof -
  have a: "fl_pow (50 / 1000 / 2) 2 = Inr (1 / 1600)"
    by (simp add: fl_pow_small power_divide)
  have b: "fl_result (pi * (1 / 1600)) = Inr (pi * (1 / 1600))"
    by (rule fl_result_small [OF pi_times_small]) simp_all
  have c: "fl_pow (50 / 1000) 4 = Inr (1 / 160000)"
    by (simp add: fl_pow_small power_divide)
  have d: "fl_result (pi * (1 / 160000)) = Inr (pi * (1 / 160000))"
    by (rule fl_result_small [OF pi_times_small]) simp_all
  show ?thesis
    unfolding section_properties_float_def
    by (simp only: a b c d and_then_def sum.case div_0 simp_thms if_True)
qed

lemma solid50_bending:
  fixes m :: real
  assumes "0 \<le> m" "m \<le> 1000"
  shows "fl_result (m * (50 / 1000 / 2)) = Inr (m * (50 / 1000 / 2))"
    and "fl_div (m * (50 / 1000 / 2)) (pi * (1 / 160000) / 64) = Inr (m * 256000 / pi)"
    and "fl_result (0 + m * 256000 / pi) = Inr (m * 256000 / pi)"
    and "fl_pow (m * 256000 / pi) 2 = Inr ((m * 256000 / pi)\<^sup>2)"
proof -
  have q: "m * (50 / 1000 / 2) / (pi * (1 / 160000) / 64) = m * 256000 / pi"
    by simp
  have b0: "0 \<le> m * 256000" "m * 256000 \<le> 10 ^ 9"
    using assms by simp_all
  have b: "0 \<le> m * 256000 / pi" "m * 256000 / pi \<le> 10 ^ 9"
    using over_pi_le [OF b0(1)] b0(2) by simp_all
  then have b20: "\<bar>m * 256000 / pi\<bar> \<le> 10 ^ 20"
    by simp
  show "fl_result (m * (50 / 1000 / 2)) = Inr (m * (50 / 1000 / 2))"
    using assms by (intro fl_result_small) simp
  show "fl_div (m * (50 / 1000 / 2)) (pi * (1 / 160000) / 64) = Inr (m * 256000 / pi)"
    using fl_div_small [of "pi * (1 / 160000) / 64" "m * (50 / 1000 / 2)"] b20
    unfolding q by simp
  show "fl_result (0 + m * 256000 / pi) = Inr (m * 256000 / pi)"
    using fl_result_small [OF b20] by simp
  have "(m * 256000 / pi)\<^sup>2 \<le> (10 ^ 9)\<^sup>2"
    using b by (intro power_mono) auto
  then have "\<bar>(m * 256000 / pi)\<^sup>2\<bar> \<le> 10 ^ 20"
    by simp
  then show "fl_pow (m * 256000 / pi) 2 = Inr ((m * 256000 / pi)\<^sup>2)"
    by (rule fl_pow_small)
qed

lemma shear_quotient:
  "t * (50 / 1000 / 2) / (pi * (1 / 160000) / 32) = t * (128000 / pi)" for t :: real
  by simp

lemma solid50_shear:
  fixes t :: real
  assumes "0 \<le> t" "t \<le> 1000"
  shows "fl_result (t * (50 / 1000 / 2)) = Inr (t * (50 / 1000 / 2))"
    and "fl_div (t * (50 / 1000 / 2)) (pi * (1 / 160000) / 32) = Inr (t * (128000 / pi))"
    and "fl_pow (t * (128000 / pi)) 2 = Inr ((t * (128000 / pi))\<^sup>2)"
    and "fl_result (3 * (t * (128000 / pi))\<^sup>2) = Inr (3 * (t * (128000 / pi))\<^sup>2)"
    and "(t * (128000 / pi))\<^sup>2 \<le> 10 ^ 18"
proof -
  have e: "t * (128000 / pi) = t * 128000 / pi"
    by simp
  have b0: "0 \<le> t * 128000" "t * 128000 \<le> 10 ^ 9"
    using assms by simp_all
  have b: "0 \<le> t * (128000 / pi)" "t * (128000 / pi) \<le> 10 ^ 9"
    unfolding e using over_pi_le [OF b0(1)] b0(2) by simp_all
  then have b20: "\<bar>t * (128000 / pi)\<bar> \<le> 10 ^ 20"
    by simp
  show "fl_result (t * (50 / 1000 / 2)) = Inr (t * (50 / 1000 / 2))"
    using assms by (intro fl_result_small) simp
  show "fl_div (t * (50 / 1000 / 2)) (pi * (1 / 160000) / 32) = Inr (t * (128000 / pi))"
    using fl_div_small [of "pi * (1 / 160000) / 32" "t * (50 / 1000 / 2)"] b20
    unfolding shear_quotient by simp
  have "(t * (128000 / pi))\<^sup>2 \<le> (10 ^ 9)\<^sup>2"
    using b by (intro power_mono) auto
  then show sq: "(t * (128000 / pi))\<^sup>2 \<le> 10 ^ 18"
    by simp
  then have "\<bar>(t * (128000 / pi))\<^sup>2\<bar> \<le> 10 ^ 20"
    by simp
  then show "fl_pow (t * (128000 / pi)) 2 = Inr ((t * (128000 / pi))\<^sup>2)"
    by (rule fl_pow_small)
  have "\<bar>3 * (t * (128000 / pi))\<^sup>2\<bar> \<le> 10 ^ 20"
    using sq by simp
  then show "fl_result (3 * (t * (128000 / pi))\<^sup>2) = Inr (3 * (t * (128000 / pi))\<^sup>2)"
    by (rule fl_result_small)
qed

lemma solid50_default_loads:
  "verify_shaft_diameter_float 50 0 1000 500 0 AISI_1045_Steel =
     Inr (Finite (310000000 /
            sqrt ((500 * 256000 / pi)\<^sup>2 + 3 * (1000 * (128000 / pi))\<^sup>2)))"
proof -
  let ?b = "500 * 256000 / pi :: real"
  let ?s = "1000 * (128000 / pi) :: real"
  let ?r = "?b\<^sup>2 + 3 * ?s\<^sup>2"
  have pos: "0 < pi * (1 / 1600)" "0 < pi * (1 / 160000) / 64" "0 < pi * (1 / 160000) / 32"
    by simp_all
  have ax: "fl_div 0 (pi * (1 / 1600)) = Inr 0"
    by (simp add: fl_div_small)
  have m: "(0::real) \<le> 500" "(500::real) \<le> 1000"
    by simp_all
  have t: "(0::real) \<le> 1000" "(1000::real) \<le> 1000"
    by simp_all
  note b = solid50_bending [OF m]
  note s = solid50_shear [OF t]
  have b1: "1 \<le> ?b"
    using pi_less_4 by (simp add: pos_le_divide_eq)
  have b2: "?b\<^sup>2 \<le> 10 ^ 18"
  proof -
    have "0 \<le> ?b \<and> ?b \<le> 500 * 256000"
      by (rule over_pi_le) simp
    then have "?b\<^sup>2 \<le> (500 * 256000)\<^sup>2"
      by (intro power_mono) auto
    then show ?thesis by simp
  qed
  have "1 \<le> ?b\<^sup>2"
    using b1 by (simp add: one_le_power)
  moreover have "0 \<le> 3 * ?s\<^sup>2"
    by simp
  ultimately have r1: "1 \<le> ?r"
    by linarith
  have r2: "?r \<le> 10 ^ 20"
    using b2 s(5) by simp
  have su: "fl_result ?r = Inr ?r"
    using r1 r2 by (intro fl_result_small) simp
  have sq: "py_sqrt ?r = Inr (sqrt ?r)"
    using r1 by (simp add: py_sqrt_def)
  have es: "equivalent_stress_float 50 0 1000 500 0 = Inr (sqrt ?r)"
    unfolding equivalent_stress_float_def Let_def sp50
    by (simp only: and_then_def sum.case prod.case pos if_True ax b s(1-4) su sq)
  have g1: "1 \<le> sqrt ?r"
    using r1 by simp
  then have g0: "0 < sqrt ?r" "sqrt ?r \<noteq> 0"
    by simp_all
  have "310000000 / sqrt ?r \<le> 310000000 / 1"
    using g1 by (intro divide_left_mono) auto
  moreover have "0 \<le> 310000000 / sqrt ?r"
    by simp
  ultimately have "\<bar>310000000 / sqrt ?r\<bar> \<le> 10 ^ 20"
    by simp
  then have dv: "fl_div 310000000 (sqrt ?r) = Inr (310000000 / sqrt ?r)"
    using g0(2) by (intro fl_div_small)
  have y: "yield_strength AISI_1045_Steel = 310000000"
    by (simp add: AISI_1045_Steel_def)
  show ?thesis
    unfolding verify_shaft_diameter_float_def es y
    by (simp only: and_then_def sum.case g0(1) if_True dv)
qed

text \<open>
  At the default loads the 50 mm shaft stays within the range and verifies at a positive
  safety factor.
\<close>

theorem verify_shaft_diameter_float_outcomes_witness:
  "0 < yield_strength AISI_1045_Steel \<and>
   verify_shaft_diameter_float 50 0 1000 500 0 AISI_1045_Steel =
     Inr (Finite (310000000 /
            sqrt ((500 * 256000 / pi)\<^sup>2 + 3 * (1000 * (128000 / pi))\<^sup>2))) \<and>
   0 < 310000000 / sqrt ((500 * 256000 / pi)\<^sup>2 + 3 * (1000 * (128000 / pi))\<^sup>2)"
proof -
  have y: "0 < yield_strength AISI_1045_Steel"
    by (simp add: AISI_1045_Steel_def)
  have "\<exists>s>0. verify_shaft_diameter_float 50 0 1000 500 0 AISI_1045_Steel = Inr (Finite s)"
    using verify_shaft_diameter_float_outcomes [OF y, of 50 0 1000 500 0]
    unfolding solid50_default_loads by simp
  then have "0 < 310000000 /
      sqrt ((500 * 256000 / pi)\<^sup>2 + 3 * (1000 * (128000 / pi))\<^sup>2)"
    unfolding solid50_default_loads by simp
  then show ?thesis
    using y solid50_default_loads by blast
qed

text \<open>
  C10, as the claim has it, fails: on the same shaft a torque of \<open>10^200\<close> gives a
  shear stress whose square lies beyond the largest float, and the call raises
  \<^verbatim>\<open>OverflowError\<close>.
\<close>

theorem verify_overflow_counterexample:
  "verify_shaft_diameter_float 50 0 (10 ^ 200) 500 0 AISI_1045_Steel = Inl OverflowError"
proof -
  let ?J = "pi * (1 / 160000) / 32"
  have pos: "0 < pi * (1 / 1600)" "0 < pi * (1 / 160000) / 64" "0 < ?J"
    by simp_all
  have ax: "fl_div 0 (pi * (1 / 1600)) = Inr 0"
    by (simp add: fl_div_small)
  have m: "(0::real) \<le> 500" "(500::real) \<le> 1000"
    by simp_all
  note b = solid50_bending [OF m]
  have c1: "(0::real) \<le> 128000 / pi" "128000 / pi \<le> 10 ^ 6"
    using over_pi_le [of 128000] by simp_all
  have c2: "(1::real) \<le> 128000 / pi"
    using pi_less_4 by (simp add: pos_le_divide_eq)
  have tm: "fl_result (10 ^ 200 * (50 / 1000 / 2)) = Inr (10 ^ 200 * (50 / 1000 / 2))"
    unfolding fl_result_def using in_float_range_torque [of "50 / 1000 / 2"] by simp
  have sh: "fl_div (10 ^ 200 * (50 / 1000 / 2)) ?J = Inr (10 ^ 200 * (128000 / pi))"
    unfolding fl_div_def fl_result_def shear_quotient
    using in_float_range_torque [OF c1] pos(3) by simp
  have s2: "fl_pow (10 ^ 200 * (128000 / pi)) 2 = Inl OverflowError"
    unfolding fl_pow_def using not_in_float_range_torque_sq [OF c2] by simp
  have "equivalent_stress_float 50 0 (10 ^ 200) 500 0 = Inl OverflowError"
    unfolding equivalent_stress_float_def Let_def sp50
    by (simp only: and_then_def sum.case prod.case pos if_True ax b tm sh s2)
  then show ?thesis
    by (simp add: verify_shaft_diameter_float_def and_then_def)
qed

section \<open>The dynamic factor\<close>

text \<open>
  C6. In the bending analysis and in the contact analysis alike, the dynamic factor is
  \<open>1\<close> for a pitch-line velocity of at most 5 m/s and \<open>(5.56 + sqrt v) / 5.56\<close> for
  every larger velocity: the branch for 5 to 10 m/s and the branch above 10 m/s compute
  the same value.
\<close>

theorem Kv_single_formula:
  "(v \<le> 5 \<longrightarrow> Kv_bending v = Inr 1 \<and> Kv_contact v = Inr 1) \<and>
   (5 < v \<longrightarrow> Kv_bending v = Inr ((5.56 + sqrt v) / 5.56) \<and>
              Kv_contact v = Inr ((5.56 + sqrt v) / 5.56))"
  by (simp add: Kv_bending_def Kv_contact_def py_sqrt_def)

theorem Kv_single_formula_witness:
  "(3::real) \<le> 5 \<and> Kv_bending 3 = Inr 1 \<and> Kv_contact 3 = Inr 1 \<and>
   (5::real) < 7 \<and> Kv_bending 7 = Inr ((5.56 + sqrt 7) / 5.56) \<and>
   Kv_contact 7 = Inr ((5.56 + sqrt 7) / 5.56) \<and>
   (5::real) < 16 \<and> Kv_bending 16 = Inr ((5.56 + sqrt 16) / 5.56) \<and>
   Kv_contact 16 = Inr ((5.56 + sqrt 16) / 5.56)"
  using Kv_single_formula [of 3] Kv_single_formula [of 7] Kv_single_formula [of 16]
  by simp

section \<open>The geometry factor of the contact analysis\<close>

lemma sin20_pos: "0 < sin (radians 20)"
  by (rule sin_gt_zero) (simp_all add: radians_def)

lemma cos_helix_pos:
  assumes "0 \<le> h" "h \<le> 45"
  shows "0 < cos (radians h)"
proof (rule cos_gt_zero_pi)
  have "0 \<le> radians h"
    using assms unfolding radians_def by simp
  then show "- (pi / 2) < radians h"
    using pi_gt_zero by linarith
  have "h * pi \<le> 45 * pi"
    using assms by simp
  then show "radians h < pi / 2"
    unfolding radians_def using pi_gt_zero by simp
qed

lemma geometry_factor_unchanged:
  assumes "0 \<le> h" "h \<le> 45" "0 < r"
  shows "0 < (cos (radians h) * sin (radians 20)) / 2 * (r / (r + 1))"
    and "raw_geometry_factor h r = Inr ((cos (radians h) * sin (radians 20)) / 2 * (r / (r + 1)))"
    and "geometry_factor h r = Inr ((cos (radians h) * sin (radians 20)) / 2 * (r / (r + 1)))"
proof -
  have q: "0 < r / (r + 1)"
    using assms by simp
  have "0 < (cos (radians h) * sin (radians 20)) / 2"
    using cos_helix_pos [OF assms(1,2)] sin20_pos by simp
  then show pos: "0 < (cos (radians h) * sin (radians 20)) / 2 * (r / (r + 1))"
    using q by (rule mult_pos_pos)
  show raw: "raw_geometry_factor h r =
      Inr ((cos (radians h) * sin (radians 20)) / 2 * (r / (r + 1)))"
    using assms by (simp add: raw_geometry_factor_def py_div_def)
  show "geometry_factor h r = Inr ((cos (radians h) * sin (radians 20)) / 2 * (r / (r + 1)))"
    unfolding geometry_factor_def raw using pos by simp
qed

text \<open>
  C5, as the code has it. The guard of the geometry factor replaces the raw value
  \<open>cos(helix) * sin(20 deg) / 2 * ratio / (ratio + 1)\<close> by \<open>0.1\<close> only when that value
  is not positive. For every gear pair (helix angle from 0 to 45 degrees, both tooth
  counts at least 12) the raw value is positive, so the contact stress formula divides by
  the raw value itself: a positive number, which may lie below \<open>0.1\<close>.
\<close>

theorem geometry_factor_positive_unfloored:
  assumes "0 \<le> h" "h \<le> 45" "12 \<le> pinion_teeth" "12 \<le> gear_teeth"
  shows "\<exists>r I. gear_ratio gear_teeth pinion_teeth = Inr r \<and>
           I = (cos (radians h) * sin (radians 20)) / 2 * (r / (r + 1)) \<and>
           raw_geometry_factor h r = Inr I \<and> geometry_factor h r = Inr I \<and> 0 < I"
proof -
  let ?r = "real_of_int gear_teeth / real_of_int pinion_teeth"
  have r: "0 < ?r"
    using assms by simp
  have "gear_ratio gear_teeth pinion_teeth = Inr ?r"
    using assms by (simp add: gear_ratio_def py_div_def)
  then show ?thesis
    using geometry_factor_unchanged [OF assms(1,2) r] by blast
qed

theorem geometry_factor_positive_unfloored_witness:
  "(0::real) \<le> 20 \<and> (20::real) \<le> 45 \<and> (12::int) \<le> 20 \<and> (12::int) \<le> 40 \<and>
   (\<exists>r I. gear_ratio 40 20 = Inr r \<and>
           I = (cos (radians 20) * sin (radians 20)) / 2 * (r / (r + 1)) \<and>
           raw_geometry_factor 20 r = Inr I \<and> geometry_factor 20 r = Inr I \<and> 0 < I)"
  using geometry_factor_positive_unfloored [of 20 20 40]
  by simp

text \<open>
  C5, as the claim has it, fails: for a pinion of 120 teeth driving a gear of 12 teeth
  with no helix angle, the factor used is \<open>sin(20 deg) / 22\<close>, below \<open>0.1\<close>, and not
  the maximum of the raw value and \<open>0.1\<close>.
\<close>

theorem geometry_factor_floor_counterexample:
  "gear_ratio 12 120 = Inr (1 / 10) \<and>
   geometry_factor 0 (1 / 10) = Inr (sin (radians 20) / 22) \<and>
   sin (radians 20) / 22 < 1 / 10 \<and>
   geometry_factor 0 (1 / 10) \<noteq>
     Inr (max ((cos (radians 0) * sin (radians 20)) / 2 * ((1 / 10) / (1 / 10 + 1))) 0.1)"
proof -
  have r: "radians 0 = 0"
    by (simp add: radians_def)
  have lt: "sin (radians 20) / 22 < 1 / 10"
    using sin_le_one [of "radians 20"] by linarith
  have g: "geometry_factor 0 (1 / 10) = Inr (sin (radians 20) / 22)"
    using sin20_pos by (simp add: geometry_factor_def raw_geometry_factor_def py_div_def r)
  have m: "max ((cos (radians 0) * sin (radians 20)) / 2 * ((1 / 10) / (1 / 10 + 1))) 0.1
      = 1 / 10"
    using lt by (simp add: r max_def)
  have q: "gear_ratio 12 120 = Inr (1 / 10)"
    by (simp add: gear_ratio_def py_div_def)
  show ?thesis
    unfolding g m using lt q by simp
qed

section \<open>The Lewis form factor\<close>

lemma teeth_list_eq:
  "teeth_list =
     [12, 13, 14, 15, 16, 17, 18, 19, 20, 22, 24, 26, 28, 30, 34, 38, 43, 50, 60, 75,
      100, 150, 300]"
  by (simp add: teeth_list_def lewis_factors_def)

lemma teeth_keys: "map fst lewis_factors = teeth_list"
  by (simp add: teeth_list_eq lewis_factors_def)

lemma teeth_min: "Min (set teeth_list) = 12"
  by (simp add: teeth_list_eq)

lemma teeth_max: "Max (set teeth_list) = 300"
  by (simp add: teeth_list_eq)

lemma teeth_sorted: "sorted_wrt (<) teeth_list"
  by (simp add: teeth_list_eq)

lemma teeth_values: "\<forall>k\<in>set teeth_list. map_of lewis_factors k = Some (lewis_value k)"
  by (simp add: teeth_list_eq lewis_value_def lewis_factors_def)

lemma values_sorted: "sorted (map lewis_value teeth_list)"
  by (simp add: teeth_list_eq lewis_value_def lewis_factors_def)

text \<open>
  C7. At every key of the table the lookup returns the table's value, so 0.322 at 20
  teeth; below 12 teeth it returns the value at 12, which is 0.245, and above 300 teeth
  the value at 300, which is 0.472.
\<close>

theorem lewis_table_and_clamp:
  "(\<forall>(k, y) \<in> set lewis_factors. get_lewis_factor k = Some y) \<and>
   get_lewis_factor 20 = Some 0.322 \<and>
   (t < 12 \<longrightarrow> get_lewis_factor t = get_lewis_factor 12 \<and>
               get_lewis_factor t = Some 0.245) \<and>
   (300 < t \<longrightarrow> get_lewis_factor t = get_lewis_factor 300 \<and>
               get_lewis_factor t = Some 0.472)"
proof -
  have keys: "\<forall>(k, y) \<in> set lewis_factors. get_lewis_factor k = Some y"
    by (simp add: get_lewis_factor_def lewis_factors_def)
  have k20: "get_lewis_factor 20 = Some 0.322"
    by (simp add: get_lewis_factor_def lewis_factors_def)
  have k12: "get_lewis_factor 12 = Some 0.245"
    by (simp add: get_lewis_factor_def lewis_factors_def)
  have k300: "get_lewis_factor 300 = Some 0.472"
    by (simp add: get_lewis_factor_def lewis_factors_def)
  have below: "get_lewis_factor t = Some 0.245" if "t < 12"
    using that unfolding get_lewis_factor_def teeth_min teeth_max
    by (simp add: lewis_factors_def)
  have above: "get_lewis_factor t = Some 0.472" if "300 < t"
    using that unfolding get_lewis_factor_def teeth_min teeth_max
    by (simp add: lewis_factors_def)
  show ?thesis
    using keys k20 k12 k300 below above by simp
qed

theorem lewis_table_and_clamp_witness:
  "(43, 0.397) \<in> set lewis_factors \<and> get_lewis_factor 43 = Some 0.397 \<and>
   (5::int) < 12 \<and> get_lewis_factor 5 = Some 0.245 \<and>
   (300::int) < 1000 \<and> get_lewis_factor 1000 = Some 0.472"
proof -
  have m: "(43, 0.397) \<in> set lewis_factors"
    by (simp add: lewis_factors_def)
  have a: "get_lewis_factor 43 = Some 0.397"
    using lewis_table_and_clamp [of 5] m by blast
  have "(5::int) < 12 \<longrightarrow> get_lewis_factor 5 = Some 0.245"
    using lewis_table_and_clamp [of 5] by blast
  then have b: "get_lewis_factor 5 = Some 0.245"
    by simp
  have "(300::int) < 1000 \<longrightarrow> get_lewis_factor 1000 = Some 0.472"
    using lewis_table_and_clamp [of 1000] by blast
  then have c: "get_lewis_factor 1000 = Some 0.472"
    by simp
  show ?thesis
    using m a b c by simp
qed

subsection \<open>Linear interpolation between two entries\<close>

lemma lin_bounds:
  fixes y1 y2 :: real and t1 t2 t :: int
  assumes "t1 < t2" "t1 \<le> t" "t \<le> t2" "y1 \<le> y2"
  shows "y1 \<le> y1 + (y2 - y1) * real_of_int (t - t1) / real_of_int (t2 - t1)"
    and "y1 + (y2 - y1) * real_of_int (t - t1) / real_of_int (t2 - t1) \<le> y2"
proof -
  let ?r = "real_of_int (t - t1) / real_of_int (t2 - t1)"
  have r0: "0 \<le> ?r"
    using assms by simp
  have r1: "?r \<le> 1"
    using assms by (simp add: divide_le_eq)
  have d: "0 \<le> y2 - y1"
    using assms by simp
  have e: "(y2 - y1) * real_of_int (t - t1) / real_of_int (t2 - t1) = (y2 - y1) * ?r"
    by simp
  have "0 \<le> (y2 - y1) * ?r"
    using d r0 by (rule mult_nonneg_nonneg)
  then show "y1 \<le> y1 + (y2 - y1) * real_of_int (t - t1) / real_of_int (t2 - t1)"
    unfolding e by linarith
  have "(y2 - y1) * ?r \<le> (y2 - y1) * 1"
    using d r1 by (rule mult_left_mono [rotated])
  then have "(y2 - y1) * ?r \<le> y2 - y1"
    by simp
  then show "y1 + (y2 - y1) * real_of_int (t - t1) / real_of_int (t2 - t1) \<le> y2"
    unfolding e by linarith
qed

lemma lin_mono:
  fixes y1 y2 :: real and t1 t2 t t' :: int
  assumes "t1 < t2" "t \<le> t'" "y1 \<le> y2"
  shows "y1 + (y2 - y1) * real_of_int (t - t1) / real_of_int (t2 - t1)
       \<le> y1 + (y2 - y1) * real_of_int (t' - t1) / real_of_int (t2 - t1)"
proof -
  have "real_of_int (t - t1) \<le> real_of_int (t' - t1)"
    using assms by simp
  then have "(y2 - y1) * real_of_int (t - t1) \<le> (y2 - y1) * real_of_int (t' - t1)"
    using assms by (intro mult_left_mono) auto
  then have "(y2 - y1) * real_of_int (t - t1) / real_of_int (t2 - t1)
       \<le> (y2 - y1) * real_of_int (t' - t1) / real_of_int (t2 - t1)"
    using assms by (intro divide_right_mono) auto
  then show ?thesis
    by simp
qed

text \<open>
  The loop over any strictly ascending key list \<open>ks\<close> whose keys are in the table with
  values \<open>g\<close>, ascending as well: inside the range of the keys it finds a bracket, and
  its result lies between the first and the last value.
\<close>

lemma interpolate_bounds:
  assumes "sorted_wrt (<) ks" "\<forall>k\<in>set ks. map_of lewis_factors k = Some (g k)"
    "sorted (map g ks)" "2 \<le> length ks" "hd ks \<le> t" "t \<le> last ks"
  shows "\<exists>y. interpolate ks t = Some y \<and> g (hd ks) \<le> y \<and> y \<le> g (last ks)"
  using assms
proof (induction ks t rule: interpolate.induct)
  case (1 t1 t2 rest teeth)
  show ?case
  proof (cases "teeth \<le> t2")
    case True
    have lt: "t1 < t2" and le: "g t1 \<le> g t2"
      using "1.prems" by auto
    have gl: "g t2 \<le> g (last (t1 # t2 # rest))"
      using "1.prems"(3) by auto
    have "interpolate (t1 # t2 # rest) teeth =
       Some (g t1 + (g t2 - g t1) * real_of_int (teeth - t1) / real_of_int (t2 - t1))"
      using True "1.prems" by simp
    with lin_bounds [OF lt _ True le] "1.prems"(5) gl show ?thesis
      by fastforce
  next
    case False
    then have ne: "rest \<noteq> []"
      using "1.prems"(6) by auto
    have "\<exists>y. interpolate (t2 # rest) teeth = Some y \<and> g (hd (t2 # rest)) \<le> y \<and>
              y \<le> g (last (t2 # rest))"
      using False ne "1.prems" by (intro "1.IH") (auto simp: Suc_le_eq)
    moreover have "g t1 \<le> g t2"
      using "1.prems" by auto
    ultimately show ?thesis
      using False by auto
  qed
qed auto

lemma interpolate_mono:
  assumes "sorted_wrt (<) ks" "\<forall>k\<in>set ks. map_of lewis_factors k = Some (g k)"
    "sorted (map g ks)" "2 \<le> length ks" "hd ks \<le> t" "t \<le> t'" "t' \<le> last ks"
  shows "\<exists>y y'. interpolate ks t = Some y \<and> interpolate ks t' = Some y' \<and> y \<le> y'"
  using assms
proof (induction ks t rule: interpolate.induct)
  case (1 t1 t2 rest teeth)
  have lt: "t1 < t2" and le: "g t1 \<le> g t2"
    using "1.prems" by auto
  show ?case
  proof (cases "teeth \<le> t2")
    case True
    have a: "interpolate (t1 # t2 # rest) teeth =
       Some (g t1 + (g t2 - g t1) * real_of_int (teeth - t1) / real_of_int (t2 - t1))"
      using True "1.prems" by simp
    show ?thesis
    proof (cases "t' \<le> t2")
      case True
      have "interpolate (t1 # t2 # rest) t' =
         Some (g t1 + (g t2 - g t1) * real_of_int (t' - t1) / real_of_int (t2 - t1))"
        using True "1.prems" by simp
      with a lin_mono [OF lt "1.prems"(6) le] show ?thesis
        by simp
    next
      case False
      then have ne: "rest \<noteq> []"
        using "1.prems"(7) by auto
      have "\<exists>y. interpolate (t2 # rest) t' = Some y \<and> g (hd (t2 # rest)) \<le> y \<and>
                y \<le> g (last (t2 # rest))"
        using False ne "1.prems" by (intro interpolate_bounds) (auto simp: Suc_le_eq)
      then obtain y' where y': "interpolate (t2 # rest) t' = Some y'" "g t2 \<le> y'"
        by auto
      have "interpolate (t1 # t2 # rest) t' = Some y'"
        using False y' by simp
      moreover have
        "g t1 + (g t2 - g t1) * real_of_int (teeth - t1) / real_of_int (t2 - t1) \<le> g t2"
        using lin_bounds(2) [OF lt _ True le] "1.prems"(5) by simp
      ultimately show ?thesis
        using a y'(2) by simp
    qed
  next
    case False
    then have f': "\<not> t' \<le> t2"
      using "1.prems"(6) by simp
    then have ne: "rest \<noteq> []"
      using "1.prems"(7) by auto
    have "\<exists>y y'. interpolate (t2 # rest) teeth = Some y \<and>
                 interpolate (t2 # rest) t' = Some y' \<and> y \<le> y'"
      using False ne "1.prems" by (intro "1.IH") (auto simp: Suc_le_eq)
    then show ?thesis
      using False f' by simp
  qed
qed auto

text \<open>At a key the first bracket that holds it gives the key's own value.\<close>

lemma interpolate_key:
  assumes "sorted_wrt (<) ks" "\<forall>k\<in>set ks. map_of lewis_factors k = Some (g k)"
    "2 \<le> length ks" "k \<in> set ks"
  shows "interpolate ks k = Some (g k)"
  using assms
proof (induction ks k rule: interpolate.induct)
  case (1 t1 t2 rest teeth)
  have lt: "t1 < t2"
    using "1.prems" by auto
  consider "teeth = t1" | "teeth = t2" | "teeth \<in> set rest"
    using "1.prems"(4) by auto
  then show ?case
  proof cases
    case 1
    then show ?thesis
      using lt "1.prems"(2) by simp
  next
    case 2
    then show ?thesis
      using lt "1.prems"(2) by simp
  next
    case 3
    then have gt: "t2 < teeth"
      using "1.prems"(1) by auto
    have "interpolate (t2 # rest) teeth = Some (g teeth)"
      using 3 gt "1.prems"
      by (intro "1.IH") (auto simp: Suc_le_eq intro: Suc_leI length_pos_if_in_set)
    then show ?thesis
      using gt by simp
  qed
qed auto

text \<open>Strictly between two neighbouring keys the result is the interpolation formula.\<close>

lemma interpolate_between:
  assumes "sorted_wrt (<) ks" "\<forall>k\<in>set ks. map_of lewis_factors k = Some (g k)"
    "Suc i < length ks" "ks ! i < t" "t < ks ! Suc i"
  shows "interpolate ks t =
     Some (g (ks ! i) + (g (ks ! Suc i) - g (ks ! i)) * real_of_int (t - ks ! i) /
             real_of_int (ks ! Suc i - ks ! i))"
  using assms
proof (induction ks t arbitrary: i rule: interpolate.induct)
  case (1 t1 t2 rest teeth)
  show ?case
  proof (cases i)
    case 0
    then show ?thesis
      using "1.prems" by simp
  next
    case (Suc j)
    have "t2 \<le> (t2 # rest) ! j"
      using "1.prems"(1,3) Suc by (cases j) (auto simp: less_imp_le)
    then have gt: "t2 < teeth"
      using "1.prems"(4) Suc by simp
    have "interpolate (t2 # rest) teeth =
        Some (g ((t2 # rest) ! j) +
              (g ((t2 # rest) ! Suc j) - g ((t2 # rest) ! j)) *
                real_of_int (teeth - (t2 # rest) ! j) /
                real_of_int ((t2 # rest) ! Suc j - (t2 # rest) ! j))"
      using gt Suc "1.prems" by (intro "1.IH") auto
    then show ?thesis
      using gt Suc by simp
  qed
qed auto

subsection \<open>The lookup on the table domain\<close>

lemma get_lewis_factor_interpolate:
  assumes "12 \<le> t" "t \<le> 300"
  shows "get_lewis_factor t = interpolate teeth_list t"
proof (cases "map_of lewis_factors t")
  case None
  then show ?thesis
    using assms unfolding get_lewis_factor_def teeth_min teeth_max by simp
next
  case (Some y)
  then have "t \<in> set teeth_list"
    unfolding teeth_keys [symmetric]
    by (metis map_of_eq_None_iff option.distinct(1) set_map)
  then have k: "interpolate teeth_list t = Some (lewis_value t)"
    by (intro interpolate_key teeth_sorted teeth_values) (simp_all add: teeth_list_eq)
  have "y = lewis_value t"
    using Some by (simp add: lewis_value_def)
  then show ?thesis
    using Some k by (simp add: get_lewis_factor_def)
qed

lemma get_lewis_factor_mono:
  assumes "12 \<le> t" "t \<le> t'" "t' \<le> 300"
  shows "\<exists>y y'. get_lewis_factor t = Some y \<and> get_lewis_factor t' = Some y' \<and> y \<le> y'"
proof -
  have "\<exists>y y'. interpolate teeth_list t = Some y \<and> interpolate teeth_list t' = Some y' \<and>
               y \<le> y'"
    using assms
    by (intro interpolate_mono [where g = lewis_value] teeth_sorted teeth_values
          values_sorted)
       (simp_all add: teeth_list_eq)
  then show ?thesis
    using assms by (simp add: get_lewis_factor_interpolate)
qed

lemma get_lewis_factor_between:
  assumes "Suc i < length lewis_factors" "fst (lewis_factors ! i) < x"
    "x < fst (lewis_factors ! Suc i)"
  shows "get_lewis_factor x =
     Some (snd (lewis_factors ! i) +
           (snd (lewis_factors ! Suc i) - snd (lewis_factors ! i)) *
             real_of_int (x - fst (lewis_factors ! i)) /
             real_of_int (fst (lewis_factors ! Suc i) - fst (lewis_factors ! i)))"
proof -
  have len: "length teeth_list = length lewis_factors"
    by (simp add: teeth_keys [symmetric])
  have nth: "teeth_list ! j = fst (lewis_factors ! j)" if "j < length lewis_factors" for j
    using that by (simp add: teeth_keys [symmetric])
  have d: "distinct (map fst lewis_factors)"
    unfolding teeth_keys using teeth_sorted by (simp add: strict_sorted_iff)
  have v: "lewis_value (fst (lewis_factors ! j)) = snd (lewis_factors ! j)"
    if "j < length lewis_factors" for j
  proof -
    have "map_of lewis_factors (fst (lewis_factors ! j)) = Some (snd (lewis_factors ! j))"
      using d that by (intro map_of_is_SomeI) (auto simp: set_conv_nth)
    then show ?thesis
      by (simp add: lewis_value_def)
  qed
  have i: "i < length lewis_factors"
    using assms(1) by simp
  have "fst (lewis_factors ! i) \<in> set teeth_list"
    using nth [OF i] nth_mem [of i teeth_list] len i by simp
  then have lo: "12 \<le> fst (lewis_factors ! i)"
    unfolding teeth_list_eq by auto
  have "fst (lewis_factors ! Suc i) \<in> set teeth_list"
    using nth [OF assms(1)] nth_mem [of "Suc i" teeth_list] len assms(1) by simp
  then have hi: "fst (lewis_factors ! Suc i) \<le> 300"
    unfolding teeth_list_eq by auto
  have "interpolate teeth_list x =
      Some (lewis_value (teeth_list ! i) +
            (lewis_value (teeth_list ! Suc i) - lewis_value (teeth_list ! i)) *
              real_of_int (x - teeth_list ! i) /
              real_of_int (teeth_list ! Suc i - teeth_list ! i))"
    using assms
    by (intro interpolate_between teeth_sorted teeth_values) (simp_all add: len nth i)
  then show ?thesis
    using lo hi assms i by (simp add: get_lewis_factor_interpolate nth v)
qed

text \<open>
  C8. Over the table domain, 12 to 300 teeth, the Lewis form factor is defined and
  monotonically non-decreasing in the tooth count; a tooth count strictly between two
  neighbouring entries \<open>(x1, y1)\<close> and \<open>(x2, y2)\<close> of the table gets the linear
  interpolation \<open>y1 + (y2 - y1) * (x - x1) / (x2 - x1)\<close>.
\<close>

theorem lewis_monotone_interpolated:
  "(12 \<le> t \<and> t \<le> t' \<and> t' \<le> 300 \<longrightarrow>
      (\<exists>y y'. get_lewis_factor t = Some y \<and> get_lewis_factor t' = Some y' \<and> y \<le> y')) \<and>
   (Suc i < length lewis_factors \<and> fst (lewis_factors ! i) < x \<and>
    x < fst (lewis_factors ! Suc i) \<longrightarrow>
      get_lewis_factor x =
        Some (snd (lewis_factors ! i) +
              (snd (lewis_factors ! Suc i) - snd (lewis_factors ! i)) *
                real_of_int (x - fst (lewis_factors ! i)) /
                real_of_int (fst (lewis_factors ! Suc i) - fst (lewis_factors ! i))))"
  using get_lewis_factor_mono [of t t'] get_lewis_factor_between [of i x]
  by blast

theorem lewis_monotone_interpolated_witness:
  "(12::int) \<le> 21 \<and> (21::int) \<le> 25 \<and> (25::int) \<le> 300 \<and>
   (\<exists>y y'. get_lewis_factor 21 = Some y \<and> get_lewis_factor 25 = Some y' \<and> y \<le> y') \<and>
   Suc 8 < length lewis_factors \<and> lewis_factors ! 8 = (20, 0.322) \<and>
   lewis_factors ! Suc 8 = (22, 0.331) \<and>
   get_lewis_factor 21 = Some (0.322 + (0.331 - 0.322) * real_of_int (21 - 20) /
                                 real_of_int (22 - 20))"
proof -
  have e: "Suc 8 < length lewis_factors" "lewis_factors ! 8 = (20, 0.322)"
    "lewis_factors ! Suc 8 = (22, 0.331)"
    by (simp_all add: lewis_factors_def)
  have p: "(12::int) \<le> 21 \<and> (21::int) \<le> 25 \<and> (25::int) \<le> 300"
    by simp
  have m: "\<exists>y y'. get_lewis_factor 21 = Some y \<and> get_lewis_factor 25 = Some y' \<and> y \<le> y'"
    using lewis_monotone_interpolated [of 21 25 8 21] p by blast
  have q: "fst (lewis_factors ! 8) < 21 \<and> 21 < fst (lewis_factors ! Suc 8)"
    unfolding e by simp
  have "get_lewis_factor 21 =
      Some (snd (lewis_factors ! 8) +
            (snd (lewis_factors ! Suc 8) - snd (lewis_factors ! 8)) *
              real_of_int (21 - fst (lewis_factors ! 8)) /
              real_of_int (fst (lewis_factors ! Suc 8) - fst (lewis_factors ! 8)))"
    using lewis_monotone_interpolated [of 21 25 8 21] e(1) q by blast
  then have f: "get_lewis_factor 21 =
      Some (0.322 + (0.331 - 0.322) * real_of_int (21 - 20) / real_of_int (22 - 20))"
    unfolding e by simp
  show ?thesis
    using e p m f by blast
qed

section \<open>Sizing a hollow shaft\<close>












section \<open>A material without strength\<close>

lemma equivalent_moment_pos:
  "0 < sqrt (M\<^sup>2 + (0.75 * T)\<^sup>2) \<longleftrightarrow> M \<noteq> 0 \<or> T \<noteq> 0"
proof -
  have "0 < M\<^sup>2 + (0.75 * T)\<^sup>2 \<longleftrightarrow> M \<noteq> 0 \<or> T \<noteq> 0"
    by (simp add: sum_power2_gt_zero_iff)
  then show ?thesis
    by simp
qed







section \<open>Bounds on pi\<close>

text \<open>
  The worked example needs pi to two decimals. Both bounds come from
  \<open>sin (pi / 6) = 1 / 2\<close>, the monotonicity of the sine on the first quadrant and
  its Taylor polynomial of degree five with the Lagrange remainder.
\<close>

lemma sum_lessThan_7:
  fixes f :: "nat \<Rightarrow> real"
  shows "(\<Sum>m<7. f m) = f 0 + f 1 + f 2 + f 3 + f 4 + f 5 + f 6"
  by (simp add: eval_nat_numeral)

lemma sin_coeff_values:
  "sin_coeff 0 = 0" "sin_coeff 1 = 1" "sin_coeff 2 = 0" "sin_coeff 3 = - 1 / 6"
  "sin_coeff 4 = 0" "sin_coeff 5 = 1 / 120" "sin_coeff 6 = 0"
  by (simp_all add: sin_coeff_def fact_numeral)

lemma sin_poly7: "(\<Sum>m<7. sin_coeff m * x ^ m) = x - x^3 / 6 + x^5 / 120" for x :: real
  unfolding sum_lessThan_7 sin_coeff_values by simp

lemma sin_taylor:
  fixes x :: real
  shows "sin x \<le> x - x^3 / 6 + x^5 / 120 + \<bar>x\<bar>^7 / 5040"
    and "x - x^3 / 6 + x^5 / 120 - \<bar>x\<bar>^7 / 5040 \<le> sin x"
proof -
  have f7: "inverse (fact 7 :: real) = 1 / 5040"
    by (simp add: fact_numeral)
  have "\<bar>sin x - (\<Sum>m<7. sin_coeff m * x ^ m)\<bar> \<le> inverse (fact 7) * \<bar>x\<bar> ^ 7"
    by (rule Maclaurin_sin_bound)
  then have b: "\<bar>sin x - (x - x^3 / 6 + x^5 / 120)\<bar> \<le> \<bar>x\<bar> ^ 7 / 5040"
    unfolding sin_poly7 f7 by simp
  from b show "sin x \<le> x - x^3 / 6 + x^5 / 120 + \<bar>x\<bar>^7 / 5040" by linarith
  from b show "x - x^3 / 6 + x^5 / 120 - \<bar>x\<bar>^7 / 5040 \<le> sin x" by linarith
qed

lemma pi_gt_314: "3.14 < pi"
proof (rule ccontr)
  assume "\<not> 3.14 < pi"
  then have le: "pi / 6 \<le> 157 / 300" by simp
  have "(157 / 300 :: real) \<le> 1" by simp
  also have "(1::real) \<le> pi / 2" using pi_ge_two by simp
  finally have hi: "(157 / 300 :: real) \<le> pi / 2" .
  have "sin (pi / 6) \<le> sin (157 / 300)"
    using le hi pi_gt_zero by (intro sin_monotone_2pi_le) auto
  then have a: "1 / 2 \<le> sin (157 / 300 :: real)" by (simp add: sin_30)
  have n: "(157 / 300 :: real) - (157 / 300)^3 / 6 + (157 / 300)^5 / 120 + \<bar>157 / 300\<bar>^7 / 5040 < 1 / 2"
    by (simp add: power_divide)
  have "sin (157 / 300 :: real) < 1 / 2"
    using sin_taylor(1) [of "157 / 300"] n by linarith
  then show False using a by simp
qed

lemma pi_lt_315: "pi < 3.15"
proof (rule ccontr)
  assume "\<not> pi < 3.15"
  then have le: "21 / 40 \<le> pi / 6" by simp
  have "sin (21 / 40) \<le> sin (pi / 6)"
    using le pi_gt_zero by (intro sin_monotone_2pi_le) auto
  then have a: "sin (21 / 40 :: real) \<le> 1 / 2" by (simp add: sin_30)
  have n: "1 / 2 < (21 / 40 :: real) - (21 / 40)^3 / 6 + (21 / 40)^5 / 120 - \<bar>21 / 40\<bar>^7 / 5040"
    by (simp add: power_divide)
  have "1 / 2 < sin (21 / 40 :: real)"
    using sin_taylor(2) [of "21 / 40"] n by linarith
  then show False using a by simp
qed

section \<open>Cube roots\<close>

lemma cube_root_cube: "0 \<le> a \<Longrightarrow> (a ^ 3) powr (1 / 3) = a" for a :: real
proof (cases "a = 0")
  case True
  then show ?thesis by simp
next
  case False
  assume "0 \<le> a"
  then have p: "0 < a" using False by simp
  have "a ^ 3 = a powr 3" using p by (simp add: powr_numeral)
  then have "(a ^ 3) powr (1 / 3) = (a powr 3) powr (1 / 3)" by simp
  also have "\<dots> = a powr (3 * (1 / 3))" by (rule powr_powr)
  also have "\<dots> = a" using p by simp
  finally show ?thesis .
qed

lemma cube_root_gt: "0 \<le> a \<Longrightarrow> a ^ 3 < x \<Longrightarrow> a < x powr (1 / 3)" for a x :: real
proof -
  assume a: "0 \<le> a" and l: "a ^ 3 < x"
  have "(a ^ 3) powr (1 / 3) < x powr (1 / 3)"
    using a l by (intro powr_less_mono2) auto
  then show ?thesis using a by (simp only: cube_root_cube)
qed

lemma cube_root_lt: "0 \<le> x \<Longrightarrow> 0 \<le> b \<Longrightarrow> x < b ^ 3 \<Longrightarrow> x powr (1 / 3) < b" for b x :: real
proof -
  assume x: "0 \<le> x" and b: "0 \<le> b" and l: "x < b ^ 3"
  have "x powr (1 / 3) < (b ^ 3) powr (1 / 3)"
    using x l by (intro powr_less_mono2) auto
  then show ?thesis using b by (simp only: cube_root_cube)
qed

lemma cube_of_cube_root: "0 \<le> x \<Longrightarrow> (x powr (1 / 3)) ^ 3 = x" for x :: real
proof (cases "x = 0")
  case True
  then show ?thesis by simp
next
  case False
  assume "0 \<le> x"
  then have p: "0 < x" using False by simp
  have "(x powr (1 / 3)) ^ 3 = (x powr (1 / 3)) powr 3"
    by (simp add: powr_numeral)
  also have "\<dots> = x powr ((1 / 3) * 3)" by (rule powr_powr)
  also have "\<dots> = x" using p by simp
  finally show ?thesis .
qed

section \<open>Sizing a solid shaft: the worked example\<close>

lemma sqrt_812500_bounds: "901.38 < sqrt 812500" "sqrt 812500 < 901.39"
proof -
  show "901.38 < sqrt 812500" by (rule real_less_rsqrt) (simp add: power2_eq_square)
  show "sqrt 812500 < 901.39" by (rule real_less_lsqrt) (simp_all add: power2_eq_square)
qed

lemma worked_value:
  "calculate_required_diameter 1000 500 0 AISI_1045_Steel 2 0 =
     Inr ((32 * sqrt 812500 / (pi * 155000000)) powr (1 / 3) * 1000)"
proof -
  have "\<not> (32 * sqrt 812500 / (pi * 155000000) < 0)"
    by (simp add: not_less)
  then show ?thesis
    by (simp add: calculate_required_diameter_def py_div_def py_sqrt_def py_pow_third_def
      AISI_1045_Steel_def)
qed

lemma worked_bounds:
  "38.94 < (32 * sqrt 812500 / (pi * 155000000)) powr (1 / 3) * 1000"
  "(32 * sqrt 812500 / (pi * 155000000)) powr (1 / 3) * 1000 < 38.99"
proof -
  let ?q = "32 * sqrt 812500 / (pi * 155000000)"
  have q0: "0 \<le> ?q" by simp
  have den: "0 < pi * 155000000" by simp
  have "(3894 / 100000) ^ 3 * (pi * 155000000) < (3894 / 100000) ^ 3 * (3.15 * 155000000)"
    using pi_lt_315 by simp
  also have "\<dots> < 32 * 901.38" by (simp add: power_divide)
  also have "\<dots> < 32 * sqrt 812500" using sqrt_812500_bounds(1) by simp
  finally have "(3894 / 100000) ^ 3 < ?q"
    using den by (simp only: pos_less_divide_eq)
  then have "3894 / 100000 < ?q powr (1 / 3)"
    by (intro cube_root_gt) auto
  then show "38.94 < ?q powr (1 / 3) * 1000" by simp
  have "32 * sqrt 812500 < 32 * 901.39" using sqrt_812500_bounds(2) by simp
  also have "\<dots> < (3899 / 100000) ^ 3 * (3.14 * 155000000)" by (simp add: power_divide)
  also have "\<dots> < (3899 / 100000) ^ 3 * (pi * 155000000)"
    using pi_gt_314 by simp
  finally have "?q < (3899 / 100000) ^ 3"
    using den by (simp only: pos_divide_less_eq)
  then have "?q powr (1 / 3) < 3899 / 100000"
    using q0 by (intro cube_root_lt) auto
  then show "?q powr (1 / 3) * 1000 < 38.99" by simp
qed

text \<open>
  C4, as the code has it. For a torque of 1000, a bending moment of 500, AISI 1045 steel
  (yield strength 310 MPa), a safety factor of 2 and a solid shaft, the equivalent moment
  \<open>sqrt (500^2 + 750^2)\<close> lies between 901.38 and 901.39, the allowable stress is
  155 MPa, and the call returns \<open>(32 * M_eq / (pi * 155e6)) ^ (1/3) * 1000\<close>, which
  lies between 38.94 and 38.99: about 0.0390 m, or 39.0 mm.
\<close>

theorem solid_worked_example:
  "calculate_required_diameter 1000 500 0 AISI_1045_Steel 2 0 =
     Inr ((32 * sqrt (500\<^sup>2 + 750\<^sup>2) / (pi * 155000000)) powr (1 / 3) * 1000) \<and>
   py_div (yield_strength AISI_1045_Steel) 2 = Inr 155000000 \<and>
   901.38 < sqrt (500\<^sup>2 + 750\<^sup>2) \<and> sqrt (500\<^sup>2 + 750\<^sup>2) < 901.39 \<and>
   38.94 < (32 * sqrt (500\<^sup>2 + 750\<^sup>2) / (pi * 155000000)) powr (1 / 3) * 1000 \<and>
   (32 * sqrt (500\<^sup>2 + 750\<^sup>2) / (pi * 155000000)) powr (1 / 3) * 1000 < 38.99"
proof -
  have e: "sqrt (500\<^sup>2 + 750\<^sup>2) = sqrt 812500"
    by simp
  have a: "py_div (yield_strength AISI_1045_Steel) 2 = Inr 155000000"
    by (simp add: py_div_def AISI_1045_Steel_def)
  show ?thesis
    unfolding e using worked_value worked_bounds sqrt_812500_bounds a by blast
qed

lemma off_by_more: "x < 38.99 \<Longrightarrow> x < 39 \<and> \<not> \<bar>x - 39.6\<bar> \<le> 1 / 2" for x :: real
  by (simp add: abs_le_iff)

text \<open>
  C4, as the claim has it, fails in its last figure: the diameter returned is below
  39 mm, more than half a millimetre away from the 39.6 mm of the claim.
\<close>

theorem solid_worked_example_counterexample:
  "calculate_required_diameter 1000 500 0 AISI_1045_Steel 2 0 =
     Inr ((32 * sqrt 812500 / (pi * 155000000)) powr (1 / 3) * 1000) \<and>
   (32 * sqrt 812500 / (pi * 155000000)) powr (1 / 3) * 1000 < 39 \<and>
   \<not> \<bar>(32 * sqrt 812500 / (pi * 155000000)) powr (1 / 3) * 1000 - 39.6\<bar> \<le> 1 / 2"
  using worked_value off_by_more [OF worked_bounds(2)]
  by blast

section \<open>Sizing a solid shaft and verifying the result\<close>

text \<open>
  A solid shaft of diameter \<open>D\<close> metres without axial force: the verifier's von Mises
  stress is \<open>32 / (pi * D^3) * sqrt (M^2 + 0.75 * T^2)\<close>.
\<close>

lemma solid_equivalent_stress:
  assumes "0 < D"
  shows "equivalent_stress (D * 1000) 0 T M 0 =
           Inr (32 / (pi * D ^ 3) * sqrt (M\<^sup>2 + 0.75 * T\<^sup>2))"
proof -
  let ?B = "32 / (pi * D ^ 3)"
  have B: "0 \<le> ?B" using assms by simp
  have sp: "section_properties (D * 1000 / 1000) (0 / 1000) =
      (pi * (D / 2)\<^sup>2, pi * D ^ 4 / 64, pi * D ^ 4 / 32)"
    by (simp add: section_properties_def)
  have pos: "0 < pi * (D / 2)\<^sup>2" "0 < pi * D ^ 4 / 64" "0 < pi * D ^ 4 / 32"
    using assms by simp_all
  have b: "M * (D * 1000 / 1000 / 2) / (pi * D ^ 4 / 64) = M * ?B"
    using assms by (simp add: field_simps power4_eq_xxxx power3_eq_cube)
  have s: "T * (D * 1000 / 1000 / 2) / (pi * D ^ 4 / 32) = T * ?B / 2"
    using assms by (simp add: field_simps power4_eq_xxxx power3_eq_cube)
  have e1: "equivalent_stress (D * 1000) 0 T M 0 =
      Inr (sqrt ((0 + M * ?B)\<^sup>2 + 3 * (T * ?B / 2)\<^sup>2))"
    unfolding equivalent_stress_eq sp using pos b s by simp
  have idb: "(0 + M * b)\<^sup>2 + 3 * (T * b / 2)\<^sup>2 = b\<^sup>2 * (M\<^sup>2 + 0.75 * T\<^sup>2)" for b :: real
    by (simp add: power2_eq_square algebra_simps)
  have sq: "sqrt (?B\<^sup>2 * (M\<^sup>2 + 0.75 * T\<^sup>2)) = ?B * sqrt (M\<^sup>2 + 0.75 * T\<^sup>2)"
    using B by (simp only: real_sqrt_mult real_sqrt_abs abs_of_nonneg)
  show ?thesis
    unfolding e1 idb sq by (rule refl)
qed

text \<open>
  The diameter sized for the safety factor \<open>sf\<close> verifies at
  \<open>sf * sqrt (M^2 + (0.75 * T)^2) / sqrt (M^2 + 0.75 * T^2)\<close>: the sizing squares the
  factor 0.75 together with the torque, the verifier does not.
\<close>

lemma solid_round_trip:
  assumes Y: "0 < yield_strength props" and sf: "0 < sf" and load: "M \<noteq> 0 \<or> T \<noteq> 0"
  defines "Meq \<equiv> sqrt (M\<^sup>2 + (0.75 * T)\<^sup>2)"
  defines "D \<equiv> (32 * Meq / (pi * (yield_strength props / sf))) powr (1 / 3)"
  shows "calculate_required_diameter T M F props sf 0 = Inr (D * 1000)"
    and "verify_shaft_diameter (D * 1000) 0 T M 0 props =
           Inr (Finite (sf * Meq / sqrt (M\<^sup>2 + 0.75 * T\<^sup>2)))"
proof -
  let ?allow = "yield_strength props / sf"
  let ?q = "32 * Meq / (pi * ?allow)"
  let ?N = "sqrt (M\<^sup>2 + 0.75 * T\<^sup>2)"
  have m: "0 < Meq" unfolding Meq_def using load equivalent_moment_pos by blast
  have a: "0 < ?allow" using Y sf by simp
  have "0 < 32 * Meq" using m by simp
  moreover have "0 < pi * ?allow" by (rule mult_pos_pos [OF pi_gt_zero a])
  ultimately have q: "0 < ?q" by (rule divide_pos_pos)
  have qne: "?q \<noteq> 0" using q by (rule less_imp_neq [THEN not_sym])
  have D: "0 < D" unfolding D_def powr_gt_zero by (rule qne)
  have D3: "D ^ 3 = ?q" unfolding D_def using q by (intro cube_of_cube_root) simp
  have "0 < M\<^sup>2 + 0.75 * T\<^sup>2"
    using load by (auto intro: add_pos_nonneg add_nonneg_pos)
  then have N: "0 < ?N" by simp
  have nq: "\<not> ?q < 0" using q by linarith
  have z: "pi * ?allow \<noteq> 0" using Y sf by simp
  have ns: "\<not> M\<^sup>2 + (0.75 * T)\<^sup>2 < 0" by (simp add: not_less add_nonneg_nonneg)
  show "calculate_required_diameter T M F props sf 0 = Inr (D * 1000)"
    unfolding calculate_required_diameter_def D_def Meq_def py_div_def py_sqrt_def py_pow_third_def
    using nq z ns sf unfolding Meq_def by simp
  have B: "32 / (pi * D ^ 3) = ?allow / Meq"
    unfolding D3 using m Y sf by (simp add: field_simps)
  have es: "equivalent_stress (D * 1000) 0 T M 0 = Inr (?allow / Meq * ?N)"
    using solid_equivalent_stress [OF D] unfolding B .
  have p: "0 < ?allow / Meq * ?N" using Y sf m N by simp
  have pne: "?allow / Meq * ?N \<noteq> 0" using p by linarith
  have dv: "py_div (yield_strength props) (?allow / Meq * ?N) =
      Inr (yield_strength props / (?allow / Meq * ?N))"
    unfolding py_div_def using pne by (simp only: if_False)
  have r: "yield_strength props / (?allow / Meq * ?N) = sf * Meq / ?N"
    using Y sf m N by (simp add: field_simps)
  show "verify_shaft_diameter (D * 1000) 0 T M 0 props = Inr (Finite (sf * Meq / ?N))"
    unfolding verify_shaft_diameter_def es by (simp only: sum.case p if_True dv r)
qed

lemma shortfall:
  assumes "0 < sf" "T \<noteq> 0"
  shows "sf * sqrt (M\<^sup>2 + (0.75 * T)\<^sup>2) / sqrt (M\<^sup>2 + 0.75 * T\<^sup>2) < sf"
proof -
  have t: "0 < T\<^sup>2" using assms by simp
  have eq: "(0.75 * T)\<^sup>2 = 9 / 16 * T\<^sup>2" by (simp add: power2_eq_square)
  have "9 / 16 * T\<^sup>2 < 0.75 * T\<^sup>2" using t by simp
  then have "M\<^sup>2 + (0.75 * T)\<^sup>2 < M\<^sup>2 + 0.75 * T\<^sup>2" unfolding eq by simp
  then have l: "sqrt (M\<^sup>2 + (0.75 * T)\<^sup>2) < sqrt (M\<^sup>2 + 0.75 * T\<^sup>2)" by simp
  have "0 \<le> sqrt (M\<^sup>2 + (0.75 * T)\<^sup>2)" by simp
  then have N: "0 < sqrt (M\<^sup>2 + 0.75 * T\<^sup>2)" using l by linarith
  have "sqrt (M\<^sup>2 + (0.75 * T)\<^sup>2) / sqrt (M\<^sup>2 + 0.75 * T\<^sup>2) < 1"
    using l N by simp
  then have "sf * (sqrt (M\<^sup>2 + (0.75 * T)\<^sup>2) / sqrt (M\<^sup>2 + 0.75 * T\<^sup>2)) < sf * 1"
    using assms(1) by (intro mult_strict_left_mono)
  then show ?thesis by simp
qed

lemma solid_round_trip_short:
  assumes "0 < yield_strength props" "0 < sf" "T \<noteq> 0"
  shows "\<exists>d s. calculate_required_diameter T M F props sf 0 = Inr d \<and>
               verify_shaft_diameter d 0 T M 0 props = Inr (Finite s) \<and> s < sf"
  using solid_round_trip(1) [of props sf M T F] solid_round_trip(2) [of props sf M T]
    shortfall [of sf T M] assms
  by blast

lemma sqrt13: "sqrt 812500 = 250 * sqrt 13" "sqrt 1000000 = 1000"
proof -
  have "sqrt 812500 = sqrt (250\<^sup>2 * 13)" by simp
  also have "\<dots> = 250 * sqrt 13" by (simp only: real_sqrt_mult real_sqrt_abs abs_numeral)
  finally show "sqrt 812500 = 250 * sqrt 13" .
  have "sqrt 1000000 = sqrt (1000\<^sup>2)" by simp
  also have "\<dots> = 1000" by (simp only: real_sqrt_abs abs_numeral)
  finally show "sqrt 1000000 = 1000" .
qed

text \<open>
  C1 at the default inputs of the design page: torque 1000, bending moment 500, no axial
  force, AISI 1045 steel, target safety factor 2, solid shaft. The diameter the solver
  returns verifies at a safety factor of \<open>sqrt 13 / 2\<close>, about 1.80, below the
  requested 2.
\<close>

theorem round_trip_default_loads_below_target:
  "calculate_required_diameter 1000 500 0 AISI_1045_Steel 2 0 =
     Inr ((32 * sqrt 812500 / (pi * 155000000)) powr (1 / 3) * 1000) \<and>
   verify_shaft_diameter ((32 * sqrt 812500 / (pi * 155000000)) powr (1 / 3) * 1000) 0
     1000 500 0 AISI_1045_Steel = Inr (Finite (sqrt 13 / 2)) \<and>
   sqrt 13 / 2 < 2"
proof -
  have y: "yield_strength AISI_1045_Steel = 310000000" by (simp add: AISI_1045_Steel_def)
  have e: "sqrt (500\<^sup>2 + (0.75 * 1000)\<^sup>2) = sqrt 812500" by simp
  have n: "sqrt (500\<^sup>2 + 0.75 * 1000\<^sup>2) = 1000" using sqrt13(2) by simp
  have c: "calculate_required_diameter 1000 500 0 AISI_1045_Steel 2 0 =
     Inr ((32 * sqrt 812500 / (pi * 155000000)) powr (1 / 3) * 1000)"
    using solid_round_trip(1) [of AISI_1045_Steel 2 500 1000 0] unfolding y e by simp
  have "verify_shaft_diameter ((32 * sqrt 812500 / (pi * 155000000)) powr (1 / 3) * 1000) 0
     1000 500 0 AISI_1045_Steel = Inr (Finite (2 * sqrt 812500 / 1000))"
    using solid_round_trip(2) [of AISI_1045_Steel 2 500 1000] unfolding y e n by simp
  then have v: "verify_shaft_diameter ((32 * sqrt 812500 / (pi * 155000000)) powr (1 / 3) * 1000) 0
     1000 500 0 AISI_1045_Steel = Inr (Finite (sqrt 13 / 2))"
    unfolding sqrt13(1) by simp
  have "sqrt 13 < sqrt 16" by (simp only: real_sqrt_less_iff)
  also have "sqrt 16 = sqrt (4\<^sup>2)" by simp
  also have "\<dots> = 4" by (simp only: real_sqrt_abs abs_numeral)
  finally have "sqrt 13 / 2 < 2" by simp
  then show ?thesis using c v by simp
qed

end
